theory Spec2Isabelle
  imports Main "HOL-Library.Word"
begin

section \<open>Data model of \<^verbatim>\<open>src/mongo/db/session.cpp\<close>\<close>

text \<open>
  The session identifier is opaque. Transaction numbers and statement ids are signed
  machine integers that the code only copies and compares, never computes with, so they
  are \<open>int\<close>. A \<^verbatim>\<open>Timestamp\<close> is ordered as an unsigned 64-bit value, and
  \<^verbatim>\<open>Timestamp()\<close> is the null timestamp \<open>0\<close>.
\<close>

type_synonym LogicalSessionId = nat
type_synonym TxnNumber = int
type_synonym StmtId = int
type_synonym Timestamp = "64 word"

text \<open>
  Modelled from the spec: the constant \<^verbatim>\<open>kUninitializedTxnNumber\<close> is declared in a
  header that is not under src/. Section 3 describes it as the sentinel that stands for
  "no transaction has ever been admitted". No proof below unfolds its value.
\<close>

definition kUninitializedTxnNumber :: TxnNumber where
  "kUninitializedTxnNumber = - 1"

record SessionTxnRecord =
  sessionId :: LogicalSessionId
  txnNum :: TxnNumber
  lastWriteOpTimeTs :: Timestamp

text \<open>
  The members of \<^verbatim>\<open>class Session\<close>: \<^verbatim>\<open>_sessionId\<close>, \<^verbatim>\<open>_isValid\<close>,
  \<^verbatim>\<open>_numInvalidations\<close> (a C++ \<^verbatim>\<open>int\<close>, whose increment is taken to wrap around at
  32 bits), \<^verbatim>\<open>_lastWrittenSessionRecord\<close> and \<^verbatim>\<open>_activeTxnNumber\<close>.
\<close>

record Session =
  session_sessionId :: LogicalSessionId
  isValid :: bool
  numInvalidations :: "32 word"
  lastWrittenSessionRecord :: "SessionTxnRecord option"
  activeTxnNumber :: TxnNumber

text \<open>
  Modelled from the spec: the member initialisers of \<^verbatim>\<open>Session\<close> are in the header,
  which is not under src/; the constructor in the source only stores the identifier.
  Section 3: a cache "is lazily populated on first use via refresh", so it starts
  invalid, with no record and no admitted transaction.
\<close>

definition newSession :: "LogicalSessionId \<Rightarrow> Session" where
  "newSession sid =
     \<lparr>session_sessionId = sid, isValid = False, numInvalidations = 0,
      lastWrittenSessionRecord = None, activeTxnNumber = kUninitializedTxnNumber\<rparr>"

text \<open>
  Every \<^verbatim>\<open>uassert\<close> and exception of the source is an error value.
  \<open>SessionsTableMissing\<close> is the configuration failure of section 7 of the
  specification, "the persisted table being entirely missing"; the source raises it as
  the \<^verbatim>\<open>uassert(40527, ...)\<close> of \<^verbatim>\<open>updateSessionEntry\<close>. \<open>WriteConflict\<close> is the
  \<^verbatim>\<open>WriteConflictException\<close>, \<open>FailPointError\<close> the code thrown by the fail point, and
  \<open>InvariantFailure\<close> a failed \<^verbatim>\<open>invariant(...)\<close>, which terminates the process.
\<close>

datatype ErrorCode =
    ConflictingOperationInProgress
  | TransactionTooOld
  | SessionsTableMissing
  | WriteConflict
  | FailPointError int
  | InvariantFailure

text \<open>What the source reads off the operation context.\<close>

record OperationContext =
  lockState_isLocked :: bool
  lockState_inAWriteUnitOfWork :: bool
  readConcern_isLocal :: bool

section \<open>Checks and transaction admission\<close>

text \<open>\<^verbatim>\<open>Session::_checkValid\<close>.\<close>

definition checkValid :: "Session \<Rightarrow> ErrorCode + unit" where
  "checkValid s = (if isValid s then Inr () else Inl ConflictingOperationInProgress)"

text \<open>\<^verbatim>\<open>Session::_checkIsActiveTransaction\<close>.\<close>

definition checkIsActiveTransaction :: "TxnNumber \<Rightarrow> Session \<Rightarrow> ErrorCode + unit" where
  "checkIsActiveTransaction txnNumber s =
     (if txnNumber = activeTxnNumber s then Inr () else Inl ConflictingOperationInProgress)"

text \<open>
  \<^verbatim>\<open>Session::_beginTxn\<close>, called with the mutex held. The result pairs the outcome with
  the cache as the call leaves it.
\<close>

definition beginTxn_locked :: "TxnNumber \<Rightarrow> Session \<Rightarrow> (ErrorCode + unit) \<times> Session" where
  "beginTxn_locked txnNumber s =
     (case checkValid s of
        Inl e \<Rightarrow> (Inl e, s)
      | Inr _ \<Rightarrow>
          if \<not> (txnNumber \<ge> activeTxnNumber s) then (Inl TransactionTooOld, s)
          else if txnNumber = activeTxnNumber s then (Inr (), s)
          else (Inr (), s\<lparr>activeTxnNumber := txnNumber\<rparr>))"

text \<open>\<^verbatim>\<open>Session::beginTxn\<close>.\<close>

definition beginTxn :: "OperationContext \<Rightarrow> TxnNumber \<Rightarrow> Session \<Rightarrow> (ErrorCode + unit) \<times> Session" where
  "beginTxn opCtx txnNumber s =
     (if lockState_isLocked opCtx then (Inl InvariantFailure, s)
      else beginTxn_locked txnNumber s)"

text \<open>\<^verbatim>\<open>Session::invalidate\<close>.\<close>

definition invalidate :: "Session \<Rightarrow> Session" where
  "invalidate s =
     s\<lparr>isValid := False,
       numInvalidations := numInvalidations s + 1,
       lastWrittenSessionRecord := None,
       activeTxnNumber := kUninitializedTxnNumber\<rparr>"

text \<open>\<^verbatim>\<open>Session::getLastWriteOpTimeTs\<close>.\<close>

definition getLastWriteOpTimeTs :: "TxnNumber \<Rightarrow> Session \<Rightarrow> ErrorCode + Timestamp" where
  "getLastWriteOpTimeTs txnNumber s =
     (case checkValid s of
        Inl e \<Rightarrow> Inl e
      | Inr _ \<Rightarrow>
          (case checkIsActiveTransaction txnNumber s of
             Inl e \<Rightarrow> Inl e
           | Inr _ \<Rightarrow>
               (case lastWrittenSessionRecord s of
                  None \<Rightarrow> Inr 0
                | Some r \<Rightarrow> if txnNum r \<noteq> txnNumber then Inr 0 else Inr (lastWriteOpTimeTs r))))"

section \<open>The persisted table and the write path\<close>

text \<open>
  The table \<^verbatim>\<open>kSessionTransactionsTableNamespace\<close> holds one row per session, keyed by
  the session identifier. Where the source asks \<^verbatim>\<open>autoColl.getCollection()\<close>, a table
  that does not exist is \<open>None\<close>.
\<close>

type_synonym Collection = "LogicalSessionId \<rightharpoonup> SessionTxnRecord"

text \<open>
  The fields of \<^verbatim>\<open>UpdateRequest\<close> that the source sets. A query either matches one
  whole record (\<^verbatim>\<open>record.toBSON()\<close>) or the session identifier; the update either is
  the \<^verbatim>\<open>$set\<close> of the transaction number and the write timestamp, or a whole
  replacement record.
\<close>

datatype UpdateQuery = MatchRecord SessionTxnRecord | MatchSessionId LogicalSessionId

datatype UpdateMod = SetTxnNumAndTs TxnNumber Timestamp | ReplaceWith SessionTxnRecord

record UpdateRequest =
  upsert :: bool
  query :: UpdateQuery
  updates :: UpdateMod

record UpdateResult =
  numDocsModified :: nat
  upserted :: "LogicalSessionId option"

text \<open>
  The storage layer's \<^verbatim>\<open>update(opCtx, db, updateRequest)\<close> is not under src/: it is a
  parameter of the model, a function from the table and the request to the result it
  reports and the table it leaves.
\<close>

type_synonym UpdateFn = "Collection \<Rightarrow> UpdateRequest \<Rightarrow> UpdateResult \<times> Collection"

text \<open>The free function \<^verbatim>\<open>updateSessionEntry\<close>.\<close>

definition updateSessionEntry ::
  "UpdateFn \<Rightarrow> UpdateRequest \<Rightarrow> Collection option \<Rightarrow> (ErrorCode + unit) \<times> Collection option" where
  "updateSessionEntry update updateRequest coll =
     (case coll of
        None \<Rightarrow> (Inl SessionsTableMissing, None)
      | Some t \<Rightarrow>
          (let (updateResult, t') = update t updateRequest in
           if numDocsModified updateResult = 0 \<and> upserted updateResult = None
           then (Inl WriteConflict, Some t')
           else (Inr (), Some t')))"

text \<open>\<^verbatim>\<open>Session::_makeUpdateRequest\<close>.\<close>

definition makeUpdateRequest :: "TxnNumber \<Rightarrow> Timestamp \<Rightarrow> Session \<Rightarrow> UpdateRequest" where
  "makeUpdateRequest newTxnNumber newLastWriteTs s =
     (case lastWrittenSessionRecord s of
        Some r \<Rightarrow>
          \<lparr>upsert = True, query = MatchRecord r,
           updates = SetTxnNumAndTs newTxnNumber newLastWriteTs\<rparr>
      | None \<Rightarrow>
          (let updateBSON = \<lparr>sessionId = session_sessionId s, txnNum = newTxnNumber,
                             lastWriteOpTimeTs = newLastWriteTs\<rparr>
           in \<lparr>upsert = True, query = MatchRecord updateBSON, updates = ReplaceWith updateBSON\<rparr>))"

text \<open>
  The body of the lambda that \<^verbatim>\<open>Session::_registerUpdateCacheOnCommit\<close> hands to
  \<^verbatim>\<open>onCommit\<close>: the merge of a committed write into the cache, under the mutex.
\<close>

definition updateCacheOnCommit ::
  "TxnNumber \<Rightarrow> Timestamp \<Rightarrow> Session \<Rightarrow> (ErrorCode + unit) \<times> Session" where
  "updateCacheOnCommit newTxnNumber newLastWriteTs s =
     (if \<not> isValid s then (Inr (), s)
      else if newTxnNumber < activeTxnNumber s then (Inr (), s)
      else
        (case beginTxn_locked newTxnNumber s of
           (Inl e, s1) \<Rightarrow> (Inl e, s1)
         | (Inr _, s1) \<Rightarrow>
             (case lastWrittenSessionRecord s1 of
                None \<Rightarrow>
                  (Inr (),
                   s1\<lparr>lastWrittenSessionRecord :=
                        Some \<lparr>sessionId = session_sessionId s1, txnNum = newTxnNumber,
                              lastWriteOpTimeTs = newLastWriteTs\<rparr>\<rparr>)
              | Some r \<Rightarrow>
                  (let r1 = (if newTxnNumber > txnNum r then r\<lparr>txnNum := newTxnNumber\<rparr> else r);
                       r2 = (if newLastWriteTs > lastWriteOpTimeTs r1
                             then r1\<lparr>lastWriteOpTimeTs := newLastWriteTs\<rparr> else r1)
                   in (Inr (), s1\<lparr>lastWrittenSessionRecord := Some r2\<rparr>)))))"

text \<open>
  A registered commit callback is the closure's captured values: the transaction number,
  the statement ids (captured, never read) and the write timestamp.
\<close>

datatype OnCommit = OnCommitUpdateCache TxnNumber "StmtId list" Timestamp

text \<open>
  The data of the fail point \<^verbatim>\<open>onPrimaryTransactionalWrite\<close>; an absent element
  (\<^verbatim>\<open>eoo()\<close>) is \<open>None\<close>. The fail point itself is passed as an option: \<open>None\<close> when it
  is off.
\<close>

record FailPointData =
  closeConnection :: "bool option"
  failBeforeCommitExceptionCode :: "int option"

text \<open>
  What one call on the write path can touch: the cache, the table, the callbacks
  registered on the operation's recovery unit, and the client's connection.
\<close>

record World =
  session :: Session
  sessionsTable :: "Collection option"
  onCommitCallbacks :: "OnCommit list"
  connectionEnded :: bool

text \<open>\<^verbatim>\<open>Session::_registerUpdateCacheOnCommit\<close>.\<close>

definition registerUpdateCacheOnCommit ::
  "FailPointData option \<Rightarrow> TxnNumber \<Rightarrow> StmtId list \<Rightarrow> Timestamp \<Rightarrow> World
     \<Rightarrow> (ErrorCode + unit) \<times> World" where
  "registerUpdateCacheOnCommit failPoint newTxnNumber stmtIdsWritten newLastWriteTs w =
     (let w1 = w\<lparr>onCommitCallbacks :=
                  onCommitCallbacks w @ [OnCommitUpdateCache newTxnNumber stmtIdsWritten newLastWriteTs]\<rparr>
      in case failPoint of
           None \<Rightarrow> (Inr (), w1)
         | Some customArgs \<Rightarrow>
             (let w2 = (if closeConnection customArgs = None \<or> closeConnection customArgs = Some True
                        then w1\<lparr>connectionEnded := True\<rparr> else w1)
              in case failBeforeCommitExceptionCode customArgs of
                   None \<Rightarrow> (Inr (), w2)
                 | Some failureCode \<Rightarrow> (Inl (FailPointError failureCode), w2)))"

text \<open>\<^verbatim>\<open>Session::onWriteOpCompletedOnPrimary\<close>.\<close>

definition onWriteOpCompletedOnPrimary ::
  "UpdateFn \<Rightarrow> FailPointData option \<Rightarrow> OperationContext \<Rightarrow> TxnNumber \<Rightarrow> StmtId list \<Rightarrow> Timestamp
     \<Rightarrow> World \<Rightarrow> (ErrorCode + unit) \<times> World" where
  "onWriteOpCompletedOnPrimary update failPoint opCtx txnNumber stmtIdsWritten newLastWriteTs w =
     (if \<not> lockState_inAWriteUnitOfWork opCtx then (Inl InvariantFailure, w)
      else
        (case checkValid (session w) of
           Inl e \<Rightarrow> (Inl e, w)
         | Inr _ \<Rightarrow>
             (case checkIsActiveTransaction txnNumber (session w) of
                Inl e \<Rightarrow> (Inl e, w)
              | Inr _ \<Rightarrow>
                  (let updateRequest = makeUpdateRequest txnNumber newLastWriteTs (session w) in
                   case updateSessionEntry update updateRequest (sessionsTable w) of
                     (Inl e, t') \<Rightarrow> (Inl e, w\<lparr>sessionsTable := t'\<rparr>)
                   | (Inr _, t') \<Rightarrow>
                       registerUpdateCacheOnCommit failPoint txnNumber stmtIdsWritten
                         newLastWriteTs (w\<lparr>sessionsTable := t'\<rparr>)))))"




text \<open>
  Modelled from the spec: the recovery unit is not under src/. Section 6, storage write
  scope: \<open>onCommit(callback)\<close>, "callback invoked exactly once, after durability, never if
  the scope aborts". Committing runs the registered callbacks in the order of their
  registration, each on the cache as it is then; aborting drops them and restores the
  table the scope started from.
\<close>

fun runOnCommit :: "OnCommit \<Rightarrow> Session \<Rightarrow> Session" where
  "runOnCommit (OnCommitUpdateCache newTxnNumber stmtIdsWritten newLastWriteTs) s =
     snd (updateCacheOnCommit newTxnNumber newLastWriteTs s)"

definition commitUnitOfWork :: "World \<Rightarrow> World" where
  "commitUnitOfWork w =
     w\<lparr>session := foldl (\<lambda>s cb. runOnCommit cb s) (session w) (onCommitCallbacks w),
       onCommitCallbacks := []\<rparr>"

definition abortUnitOfWork :: "Collection option \<Rightarrow> World \<Rightarrow> World" where
  "abortUnitOfWork tableAtBegin w = w\<lparr>sessionsTable := tableAtBegin, onCommitCallbacks := []\<rparr>"

section \<open>Refresh\<close>

text \<open>
  Modelled from the spec: \<^verbatim>\<open>DBDirectClient::findOne\<close> is not under src/. Section 6 gives
  the store's point lookup as \<open>findOne(sessionIdentifier) -> optional<row>\<close>: on a table
  that exists, the session's row when the table holds one and nothing otherwise. For a
  table that does not exist, section 4.1 gives the failure of the refresh: "the persisted
  table itself being absent is a fatal configuration error, not a retryable one". The
  source of the refresh has no check of the table of its own, so that failure is the
  lookup's. The rows are well-formed records, so \<^verbatim>\<open>SessionTxnRecord::parse\<close> is the
  identity on them.
\<close>

definition findOne ::
  "Collection option \<Rightarrow> LogicalSessionId \<Rightarrow> ErrorCode + SessionTxnRecord option" where
  "findOne coll sid = (case coll of None \<Rightarrow> Inl SessionsTableMissing | Some t \<Rightarrow> Inr (t sid))"

text \<open>
  The locked section at the end of one iteration of the loop of
  \<^verbatim>\<open>Session::refreshFromStorageIfNeeded\<close> (from \<^verbatim>\<open>ul.lock()\<close> on): given the count of
  invalidations taken before the lookup and the row looked up, it returns whether the loop
  breaks, and the cache.
\<close>

definition refresh_relock ::
  "32 word \<Rightarrow> SessionTxnRecord option \<Rightarrow> Session \<Rightarrow> bool \<times> Session" where
  "refresh_relock numInvalidations0 lastWrittenTxnRecord s =
     (if \<not> isValid s \<and> numInvalidations s = numInvalidations0
      then (True,
            (case lastWrittenTxnRecord of
               Some r \<Rightarrow> s\<lparr>isValid := True, lastWrittenSessionRecord := Some r,
                            activeTxnNumber := txnNum r\<rparr>
             | None \<Rightarrow> s\<lparr>isValid := True, lastWrittenSessionRecord := None\<rparr>))
      else (False, s))"

text \<open>
  While the mutex is released other threads run their own locked sections on the same
  cache. Each is one of the sections of the source that write to the cache.
\<close>

datatype Action =
    Invalidate
  | BeginTxn TxnNumber
  | CommitCallback TxnNumber Timestamp
  | RefreshRelock "32 word" "SessionTxnRecord option"

fun exec :: "Action \<Rightarrow> Session \<Rightarrow> Session" where
  "exec Invalidate s = invalidate s"
| "exec (BeginTxn n) s = snd (beginTxn_locked n s)"
| "exec (CommitCallback n ts) s = snd (updateCacheOnCommit n ts s)"
| "exec (RefreshRelock n0 r) s = snd (refresh_relock n0 r s)"

definition runActions :: "Action list \<Rightarrow> Session \<Rightarrow> Session" where
  "runActions acts s = foldl (\<lambda>s a. exec a s) s acts"

text \<open>
  One unlocked window of the refresh loop: the table as the lookup sees it, and the
  locked sections of other threads that run before the mutex is taken again.
\<close>

record Window =
  seenTable :: "Collection option"
  interference :: "Action list"

text \<open>
  The loop of \<^verbatim>\<open>Session::refreshFromStorageIfNeeded\<close>, one window per iteration. The
  lookup is issued as the window opens; when it fails, its exception leaves the function
  with the mutex released and the cache as it was. The loop has no bound of its own:
  \<open>None\<close> says that it is still running when the listed windows are used up.
\<close>

fun refresh_loop :: "Window list \<Rightarrow> Session \<Rightarrow> ((ErrorCode + unit) \<times> Session) option" where
  "refresh_loop [] s = (if isValid s then Some (Inr (), s) else None)"
| "refresh_loop (w # ws) s =
     (if isValid s then Some (Inr (), s)
      else
        (let numInvalidations0 = numInvalidations s in
         case findOne (seenTable w) (session_sessionId s) of
           Inl e \<Rightarrow> Some (Inl e, s)
         | Inr lastWrittenTxnRecord \<Rightarrow>
             (let s1 = runActions (interference w) s;
                  (done, s2) = refresh_relock numInvalidations0 lastWrittenTxnRecord s1
              in if done then Some (Inr (), s2) else refresh_loop ws s2)))"

text \<open>\<^verbatim>\<open>Session::refreshFromStorageIfNeeded\<close>.\<close>

definition refreshFromStorageIfNeeded ::
  "OperationContext \<Rightarrow> Window list \<Rightarrow> Session \<Rightarrow> ((ErrorCode + unit) \<times> Session) option" where
  "refreshFromStorageIfNeeded opCtx ws s =
     (if lockState_isLocked opCtx then Some (Inl InvariantFailure, s)
      else if \<not> readConcern_isLocal opCtx then Some (Inl InvariantFailure, s)
      else refresh_loop ws s)"

section \<open>Statement lookup\<close>

text \<open>
  What the source reads off \<^verbatim>\<open>repl::OplogEntry\<close>: its position in the log and its
  optional statement id.
\<close>

record OplogEntry =
  entryTs :: Timestamp
  statementId :: "StmtId option"

text \<open>
  The loop of \<^verbatim>\<open>Session::checkStatementExecuted\<close> over the entries that the iterator
  still has to give: \<^verbatim>\<open>hasNext()\<close> is a non-empty list, \<^verbatim>\<open>next()\<close> its head.
\<close>

fun checkStatementExecuted_walk :: "StmtId \<Rightarrow> OplogEntry list \<Rightarrow> ErrorCode + OplogEntry option" where
  "checkStatementExecuted_walk stmtId [] = Inr None"
| "checkStatementExecuted_walk stmtId (entry # rest) =
     (case statementId entry of
        None \<Rightarrow> Inl InvariantFailure
      | Some i \<Rightarrow> if i = stmtId then Inr (Some entry) else checkStatementExecuted_walk stmtId rest)"

text \<open>
  \<^verbatim>\<open>Session::checkStatementExecuted\<close>. \<^verbatim>\<open>TransactionHistoryIterator\<close> is not under
  src/: the parameter \<open>history\<close> gives, for a starting write position, the entries that
  the iterator yields from there back to the beginning of the chain (section 6: a
  "backward-ordered ... sequence of log entries up to the beginning of the chain").
\<close>

definition checkStatementExecuted ::
  "(Timestamp \<Rightarrow> OplogEntry list) \<Rightarrow> TxnNumber \<Rightarrow> StmtId \<Rightarrow> Session \<Rightarrow> ErrorCode + OplogEntry option" where
  "checkStatementExecuted history txnNumber stmtId s =
     (case checkValid s of
        Inl e \<Rightarrow> Inl e
      | Inr _ \<Rightarrow>
          (case checkIsActiveTransaction txnNumber s of
             Inl e \<Rightarrow> Inl e
           | Inr _ \<Rightarrow>
               (case lastWrittenSessionRecord s of
                  None \<Rightarrow> Inr None
                | Some r \<Rightarrow>
                    if txnNum r \<noteq> txnNumber then Inr None
                    else checkStatementExecuted_walk stmtId (history (lastWriteOpTimeTs r)))))"

text \<open>Invariant I2 of section 3 of the specification.\<close>

definition I2 :: "Session \<Rightarrow> bool" where
  "I2 s = (case lastWrittenSessionRecord s of
             None \<Rightarrow> True
           | Some r \<Rightarrow> txnNum r \<le> activeTxnNumber s)"

section \<open>Example inputs\<close>

text \<open>
  Concrete inputs for the evaluations below: an operation context that holds no lock and
  reads at the local read concern, one inside a write unit of work, a record of
  transaction 5 written at position 100, and a valid cache at active transaction 5, with
  and without that record.
\<close>

abbreviation opCtx_idle :: OperationContext where
  "opCtx_idle \<equiv>
     \<lparr>lockState_isLocked = False, lockState_inAWriteUnitOfWork = False, readConcern_isLocal = True\<rparr>"

abbreviation opCtx_writing :: OperationContext where
  "opCtx_writing \<equiv>
     \<lparr>lockState_isLocked = True, lockState_inAWriteUnitOfWork = True, readConcern_isLocal = True\<rparr>"

abbreviation record_5_100 :: SessionTxnRecord where
  "record_5_100 \<equiv> \<lparr>sessionId = 1, txnNum = 5, lastWriteOpTimeTs = 100\<rparr>"

abbreviation session_at_5 :: Session where
  "session_at_5 \<equiv>
     \<lparr>session_sessionId = 1, isValid = True, numInvalidations = 0,
      lastWrittenSessionRecord = None, activeTxnNumber = 5\<rparr>"

abbreviation session_written_5 :: Session where
  "session_written_5 \<equiv>
     \<lparr>session_sessionId = 1, isValid = True, numInvalidations = 0,
      lastWrittenSessionRecord = Some record_5_100, activeTxnNumber = 5\<rparr>"

section \<open>Properties of the commit callback\<close>

lemma updateCacheOnCommit_ok: "fst (updateCacheOnCommit n ts s) = Inr ()"
  by (simp add: updateCacheOnCommit_def beginTxn_locked_def checkValid_def Let_def
      split: option.splits)

lemma updateCacheOnCommit_merged:
  assumes "isValid s" and "activeTxnNumber s \<le> n"
  shows "snd (updateCacheOnCommit n ts s) =
           s\<lparr>activeTxnNumber := n,
             lastWrittenSessionRecord :=
               (case lastWrittenSessionRecord s of
                  None \<Rightarrow> Some \<lparr>sessionId = session_sessionId s, txnNum = n, lastWriteOpTimeTs = ts\<rparr>
                | Some r \<Rightarrow> Some (r\<lparr>txnNum := max (txnNum r) n,
                                   lastWriteOpTimeTs := max (lastWriteOpTimeTs r) ts\<rparr>))\<rparr>"
  using assms
  by (cases s)
    (auto simp add: updateCacheOnCommit_def beginTxn_locked_def checkValid_def Let_def max_def
      split: option.splits)

lemma updateCacheOnCommit_skipped:
  assumes "\<not> isValid s \<or> n < activeTxnNumber s"
  shows "snd (updateCacheOnCommit n ts s) = s"
  using assms by (auto simp add: updateCacheOnCommit_def)

section \<open>Invariant I2, operation by operation\<close>

lemma I2_newSession: "I2 (newSession sid)"
  by (simp add: I2_def newSession_def)

lemma I2_invalidate: "I2 (invalidate s)"
  by (simp add: I2_def invalidate_def)

lemma I2_beginTxn_locked: "I2 s \<Longrightarrow> I2 (snd (beginTxn_locked n s))"
  by (auto simp add: I2_def beginTxn_locked_def checkValid_def split: option.splits)

lemma I2_updateCacheOnCommit: "I2 s \<Longrightarrow> I2 (snd (updateCacheOnCommit n ts s))"
  by (auto simp add: I2_def updateCacheOnCommit_def beginTxn_locked_def checkValid_def Let_def
      split: option.splits)

lemma I2_refresh_relock: "I2 s \<Longrightarrow> I2 (snd (refresh_relock n0 r s))"
  by (auto simp add: I2_def refresh_relock_def split: option.splits)

lemma I2_exec: "I2 s \<Longrightarrow> I2 (exec a s)"
  by (cases a)
    (simp_all add: I2_invalidate I2_beginTxn_locked I2_updateCacheOnCommit I2_refresh_relock)

lemma I2_runActions: "I2 s \<Longrightarrow> I2 (runActions acts s)"
  unfolding runActions_def
  by (induction acts arbitrary: s) (simp_all add: I2_exec)

lemma I2_commitUnitOfWork:
  assumes "I2 (session w)"
  shows "I2 (session (commitUnitOfWork w))"
proof -
  have "I2 s \<Longrightarrow> I2 (foldl (\<lambda>s cb. runOnCommit cb s) s cbs)" for s cbs
  proof (induction cbs arbitrary: s)
    case Nil
    then show ?case by simp
  next
    case (Cons cb cbs)
    have "I2 (runOnCommit cb s)"
      using Cons.prems by (cases cb) (simp add: I2_updateCacheOnCommit)
    then show ?case using Cons.IH by simp
  qed
  with assms show ?thesis
    by (simp add: commitUnitOfWork_def)
qed

section \<open>The refresh loop, iteration by iteration\<close>

lemma refresh_relock_fst:
  "fst (refresh_relock n0 r s) \<longleftrightarrow> \<not> isValid s \<and> numInvalidations s = n0"
  by (simp add: refresh_relock_def)

lemma refresh_relock_discard:
  "\<not> fst (refresh_relock n0 r s) \<Longrightarrow> snd (refresh_relock n0 r s) = s"
  by (auto simp add: refresh_relock_def)

lemma refresh_relock_install:
  "fst (refresh_relock n0 r s) \<Longrightarrow>
     snd (refresh_relock n0 r s) =
       s\<lparr>isValid := True, lastWrittenSessionRecord := r,
         activeTxnNumber := (case r of None \<Rightarrow> activeTxnNumber s | Some x \<Rightarrow> txnNum x)\<rparr>"
  by (cases s) (simp add: refresh_relock_def split: if_splits option.splits)

lemma refresh_loop_valid: "isValid s \<Longrightarrow> refresh_loop ws s = Some (Inr (), s)"
  by (cases ws) simp_all

lemma refresh_loop_lookup_fails:
  assumes "\<not> isValid s" and "seenTable w = None"
  shows "refresh_loop (w # ws) s = Some (Inl SessionsTableMissing, s)"
  using assms by (simp add: findOne_def)

lemma refresh_loop_step:
  assumes "\<not> isValid s" and "seenTable w = Some t"
  shows "refresh_loop (w # ws) s =
       (if fst (refresh_relock (numInvalidations s) (t (session_sessionId s))
                  (runActions (interference w) s))
        then Some (Inr (), snd (refresh_relock (numInvalidations s) (t (session_sessionId s))
                     (runActions (interference w) s)))
        else refresh_loop ws
               (snd (refresh_relock (numInvalidations s) (t (session_sessionId s))
                  (runActions (interference w) s))))"
  using assms by (simp add: findOne_def Let_def split: prod.splits)

lemma refresh_loop_installs:
  assumes "\<not> isValid s" and "seenTable w = Some t"
    and "\<not> isValid (runActions (interference w) s)"
    and "numInvalidations (runActions (interference w) s) = numInvalidations s"
  shows "refresh_loop (w # ws) s =
           Some (Inr (),
                 (runActions (interference w) s)
                   \<lparr>isValid := True,
                    lastWrittenSessionRecord := t (session_sessionId s),
                    activeTxnNumber :=
                      (case t (session_sessionId s) of
                         None \<Rightarrow> activeTxnNumber (runActions (interference w) s)
                       | Some x \<Rightarrow> txnNum x)\<rparr>)"
  unfolding refresh_loop_step [OF assms(1,2)]
  using assms(3,4) by (simp add: refresh_relock_fst refresh_relock_install)

lemma refresh_loop_made_valid:
  assumes "\<not> isValid s" and "seenTable w = Some t"
    and "isValid (runActions (interference w) s)"
  shows "refresh_loop (w # ws) s = Some (Inr (), runActions (interference w) s)"
  unfolding refresh_loop_step [OF assms(1,2)]
  using assms(3) by (simp add: refresh_relock_fst refresh_relock_discard refresh_loop_valid)

lemma refresh_loop_epoch_changed:
  assumes "\<not> isValid s" and "seenTable w = Some t"
    and "numInvalidations (runActions (interference w) s) \<noteq> numInvalidations s"
  shows "refresh_loop (w # ws) s = refresh_loop ws (runActions (interference w) s)"
  unfolding refresh_loop_step [OF assms(1,2)]
  using assms(3) by (simp add: refresh_relock_fst refresh_relock_discard)

lemma I2_refresh_loop: "I2 s \<Longrightarrow> refresh_loop ws s = Some (res, s') \<Longrightarrow> I2 s'"
proof (induction ws arbitrary: s)
  case Nil
  then show ?case by (simp split: if_splits)
next
  case (Cons w ws)
  show ?case
  proof (cases "isValid s")
    case True
    then show ?thesis using Cons.prems by simp
  next
    case False
    show ?thesis
    proof (cases "seenTable w")
      case None
      then have "s' = s"
        using Cons.prems(2) refresh_loop_lookup_fails [OF False None, of ws] by simp
      then show ?thesis using Cons.prems(1) by simp
    next
      case (Some t)
      let ?p = "refresh_relock (numInvalidations s) (t (session_sessionId s))
                  (runActions (interference w) s)"
      have i: "I2 (snd ?p)"
        using Cons.prems(1) by (simp add: I2_runActions I2_refresh_relock)
      note step = refresh_loop_step [OF False Some, of ws]
      show ?thesis
      proof (cases "fst ?p")
        case True
        then have "s' = snd ?p"
          using Cons.prems(2) step by simp
        then show ?thesis using i by simp
      next
        case False
        then have "refresh_loop ws (snd ?p) = Some (res, s')"
          using Cons.prems(2) step by simp
        then show ?thesis using Cons.IH i by blast
      qed
    qed
  qed
qed

lemma numInvalidations_invalidations:
  "numInvalidations (runActions (replicate k Invalidate) s) = numInvalidations s + of_nat k"
  unfolding runActions_def
  by (induction k arbitrary: s) (simp_all add: invalidate_def)

lemma invalidations_change_epoch:
  assumes "0 < k" and "k < 2 ^ 32"
  shows "numInvalidations (runActions (replicate k Invalidate) s) \<noteq> numInvalidations s"
proof -
  have "(of_nat k :: 32 word) \<noteq> 0"
    using assms by (simp add: word_of_nat_eq_0_iff nat_dvd_not_less)
  then show ?thesis by (simp add: numInvalidations_invalidations)
qed

lemma invalidations_leave_invalid:
  "0 < k \<Longrightarrow> \<not> isValid (runActions (replicate k Invalidate) s)
             \<and> lastWrittenSessionRecord (runActions (replicate k Invalidate) s) = None"
  unfolding runActions_def
proof (induction k arbitrary: s)
  case 0
  then show ?case by simp
next
  case (Suc k)
  show ?case
  proof (cases k)
    case 0
    then show ?thesis by (simp add: invalidate_def)
  next
    case (Suc j)
    then show ?thesis using Suc.IH [of "invalidate s"] by simp
  qed
qed

section \<open>The walk over the log\<close>

lemma walk_first_decisive:
  "checkStatementExecuted_walk stmtId es =
     (case find (\<lambda>e. statementId e = None \<or> statementId e = Some stmtId) es of
        None \<Rightarrow> Inr None
      | Some e \<Rightarrow> if statementId e = None then Inl InvariantFailure else Inr (Some e))"
  by (induction es) (auto split: option.splits)

lemma walk_all_ids:
  "\<forall>e \<in> set es. statementId e \<noteq> None \<Longrightarrow>
     checkStatementExecuted_walk stmtId es = Inr (find (\<lambda>e. statementId e = Some stmtId) es)"
  by (induction es) (auto split: option.splits)

lemma walk_not_found:
  "checkStatementExecuted_walk stmtId es = Inr None \<Longrightarrow>
     \<forall>e \<in> set es. statementId e \<noteq> None \<and> statementId e \<noteq> Some stmtId"
  by (induction es) (auto split: option.splits if_splits)

lemma walk_visits_missing_id:
  "\<forall>e \<in> set pre. statementId e \<noteq> None \<and> statementId e \<noteq> Some stmtId \<Longrightarrow>
   statementId x = None \<Longrightarrow>
     checkStatementExecuted_walk stmtId (pre @ x # post) = Inl InvariantFailure"
  by (induction pre) (auto split: option.splits)

section \<open>Transaction admission\<close>

text \<open>
  C1. \<^verbatim>\<open>_beginTxn(n)\<close>, and so \<^verbatim>\<open>beginTxn(n)\<close> whenever its caller holds no lock
  (otherwise its \<^verbatim>\<open>invariant\<close> fails first): on an invalid cache it fails with
  ConflictingOperationInProgress; on a valid cache, a number below the active one fails
  with TransactionTooOld and leaves the whole cache, so also the active transaction
  number, as it was; the active number itself succeeds with no state change; a larger
  number succeeds and becomes the active number, every other field staying as it was.
\<close>

theorem beginTxn_admission:
  "(\<not> isValid s \<longrightarrow> beginTxn_locked n s = (Inl ConflictingOperationInProgress, s))
   \<and> (isValid s \<and> n < activeTxnNumber s \<longrightarrow>
        beginTxn_locked n s = (Inl TransactionTooOld, s)
        \<and> activeTxnNumber (snd (beginTxn_locked n s)) = activeTxnNumber s)
   \<and> (isValid s \<and> n = activeTxnNumber s \<longrightarrow> beginTxn_locked n s = (Inr (), s))
   \<and> (isValid s \<and> n > activeTxnNumber s \<longrightarrow>
        beginTxn_locked n s = (Inr (), s\<lparr>activeTxnNumber := n\<rparr>)
        \<and> activeTxnNumber (snd (beginTxn_locked n s)) = n)
   \<and> (\<not> lockState_isLocked opCtx \<longrightarrow> beginTxn opCtx n s = beginTxn_locked n s)"
  by (simp add: beginTxn_def beginTxn_locked_def checkValid_def)

text \<open>
  Scenario B of the specification and its neighbours: on the cache at active transaction
  5, \<open>beginTxn 3\<close> is too old, \<open>beginTxn 5\<close> changes nothing, \<open>beginTxn 7\<close> advances, and
  an invalidated cache refuses.
\<close>

theorem beginTxn_admission_witness:
  "beginTxn opCtx_idle 3 session_at_5 = (Inl TransactionTooOld, session_at_5)
   \<and> beginTxn opCtx_idle 5 session_at_5 = (Inr (), session_at_5)
   \<and> beginTxn opCtx_idle 7 session_at_5 = (Inr (), session_at_5\<lparr>activeTxnNumber := 7\<rparr>)
   \<and> beginTxn opCtx_idle 5 (invalidate session_at_5)
       = (Inl ConflictingOperationInProgress, invalidate session_at_5)"
  using
    beginTxn_admission [where opCtx = opCtx_idle and s = session_at_5 and n = 3]
    beginTxn_admission [where opCtx = opCtx_idle and s = session_at_5 and n = 5]
    beginTxn_admission [where opCtx = opCtx_idle and s = session_at_5 and n = 7]
    beginTxn_admission [where opCtx = opCtx_idle and s = "invalidate session_at_5" and n = 5]
  by (simp add: invalidate_def)

section \<open>Write completion\<close>

text \<open>
  C2. A call of \<^verbatim>\<open>onWriteOpCompletedOnPrimary\<close>, whatever its outcome, leaves the
  cache as it found it: the session of the world after the call is the session before
  it, field by field. The call only changes the table and may append its one callback to
  the recovery unit; when the write scope then aborts, the callback is dropped without
  having run, and the cache is still the one from before the call.
\<close>

theorem onWriteOpCompletedOnPrimary_cache_untouched:
  "session (snd (onWriteOpCompletedOnPrimary update failPoint opCtx n stmts ts w)) = session w
   \<and> session (abortUnitOfWork tableAtBegin
        (snd (onWriteOpCompletedOnPrimary update failPoint opCtx n stmts ts w))) = session w
   \<and> onCommitCallbacks (abortUnitOfWork tableAtBegin
        (snd (onWriteOpCompletedOnPrimary update failPoint opCtx n stmts ts w))) = []
   \<and> (onCommitCallbacks (snd (onWriteOpCompletedOnPrimary update failPoint opCtx n stmts ts w))
         = onCommitCallbacks w
      \<or> onCommitCallbacks (snd (onWriteOpCompletedOnPrimary update failPoint opCtx n stmts ts w))
         = onCommitCallbacks w @ [OnCommitUpdateCache n stmts ts])"
  by (simp add: onWriteOpCompletedOnPrimary_def registerUpdateCacheOnCommit_def
      abortUnitOfWork_def Let_def split: sum.splits prod.splits option.splits)

text \<open>
  A successful write of transaction 5 at position 100 on an empty table: the callback is
  registered, the cache is still without a record, and stays so when the scope aborts.
\<close>

theorem onWriteOpCompletedOnPrimary_cache_untouched_witness:
  "onWriteOpCompletedOnPrimary
       (\<lambda>t req. (\<lparr>numDocsModified = 0, upserted = Some 1\<rparr>, t(1 \<mapsto> record_5_100))) None
       opCtx_writing 5 [0] 100
       \<lparr>session = session_at_5, sessionsTable = Some Map.empty, onCommitCallbacks = [],
        connectionEnded = False\<rparr>
     = (Inr (),
        \<lparr>session = session_at_5, sessionsTable = Some (Map.empty(1 \<mapsto> record_5_100)),
         onCommitCallbacks = [OnCommitUpdateCache 5 [0] 100], connectionEnded = False\<rparr>)
   \<and> session (abortUnitOfWork (Some Map.empty)
        (snd (onWriteOpCompletedOnPrimary
           (\<lambda>t req. (\<lparr>numDocsModified = 0, upserted = Some 1\<rparr>, t(1 \<mapsto> record_5_100))) None
           opCtx_writing 5 [0] 100
           \<lparr>session = session_at_5, sessionsTable = Some Map.empty, onCommitCallbacks = [],
            connectionEnded = False\<rparr>))) = session_at_5"
  using onWriteOpCompletedOnPrimary_cache_untouched
    [where update = "\<lambda>t req. (\<lparr>numDocsModified = 0, upserted = Some 1\<rparr>, t(1 \<mapsto> record_5_100))"
       and failPoint = None and opCtx = opCtx_writing and n = 5 and stmts = "[0]" and ts = 100
       and tableAtBegin = "Some Map.empty"
       and w = "\<lparr>session = session_at_5, sessionsTable = Some Map.empty, onCommitCallbacks = [],
                  connectionEnded = False\<rparr>"]
  by (simp add: onWriteOpCompletedOnPrimary_def registerUpdateCacheOnCommit_def
      updateSessionEntry_def makeUpdateRequest_def checkValid_def checkIsActiveTransaction_def
      abortUnitOfWork_def)

text \<open>
  C5. When the update of the table reports no document modified and no upserted id,
  \<^verbatim>\<open>onWriteOpCompletedOnPrimary\<close> fails with WriteConflict; the cache is unchanged and
  no callback has been registered. The update is reached when the caller is in a write
  unit of work, the cache is valid, the number is the active one and the table exists.
\<close>

theorem onWriteOpCompletedOnPrimary_writeConflict:
  assumes "lockState_inAWriteUnitOfWork opCtx"
    and "isValid (session w)"
    and "n = activeTxnNumber (session w)"
    and "sessionsTable w = Some t"
    and "numDocsModified (fst (update t (makeUpdateRequest n ts (session w)))) = 0"
    and "upserted (fst (update t (makeUpdateRequest n ts (session w)))) = None"
  shows "fst (onWriteOpCompletedOnPrimary update failPoint opCtx n stmts ts w) = Inl WriteConflict
       \<and> session (snd (onWriteOpCompletedOnPrimary update failPoint opCtx n stmts ts w)) = session w
       \<and> onCommitCallbacks (snd (onWriteOpCompletedOnPrimary update failPoint opCtx n stmts ts w))
           = onCommitCallbacks w"
proof -
  obtain res t' where u: "update t (makeUpdateRequest n ts (session w)) = (res, t')"
    by (cases "update t (makeUpdateRequest n ts (session w))")
  then have "numDocsModified res = 0" and "upserted res = None"
    using assms(5,6) by simp_all
  then have "updateSessionEntry update (makeUpdateRequest n ts (session w)) (sessionsTable w)
               = (Inl WriteConflict, Some t')"
    using u assms(4) by (simp add: updateSessionEntry_def)
  then show ?thesis
    using assms(1-3)
    by (simp add: onWriteOpCompletedOnPrimary_def checkValid_def checkIsActiveTransaction_def)
qed

text \<open>
  Scenario E of the specification: the update of a stale record matches nothing and
  inserts nothing.
\<close>

theorem onWriteOpCompletedOnPrimary_writeConflict_witness:
  "fst (onWriteOpCompletedOnPrimary (\<lambda>t req. (\<lparr>numDocsModified = 0, upserted = None\<rparr>, t)) None
          opCtx_writing 5 [0] 100
          \<lparr>session = session_written_5, sessionsTable = Some Map.empty, onCommitCallbacks = [],
           connectionEnded = False\<rparr>)
     = Inl WriteConflict
   \<and> session (snd (onWriteOpCompletedOnPrimary
          (\<lambda>t req. (\<lparr>numDocsModified = 0, upserted = None\<rparr>, t)) None
          opCtx_writing 5 [0] 100
          \<lparr>session = session_written_5, sessionsTable = Some Map.empty, onCommitCallbacks = [],
           connectionEnded = False\<rparr>))
     = session_written_5"
  using onWriteOpCompletedOnPrimary_writeConflict
    [where update = "\<lambda>t req. (\<lparr>numDocsModified = 0, upserted = None\<rparr>, t)"
       and failPoint = None and opCtx = opCtx_writing and n = 5 and stmts = "[0]" and ts = 100
       and t = Map.empty
       and w = "\<lparr>session = session_written_5, sessionsTable = Some Map.empty,
                  onCommitCallbacks = [], connectionEnded = False\<rparr>"]
  by simp

section \<open>The merge at commit\<close>

text \<open>
  C3, as amended. When the commit callback passes its two guards (the cache is valid and
  the callback's number is not below the active one), a record that is present has
  afterwards the maximum of its old transaction number and the callback's number, and the
  maximum of its old write position and the callback's position. On every invocation,
  also one that a guard turns away, neither field of a present record decreases. Two
  callbacks of the same number that pass the guards leave, in either order, the maximum
  of the old position (null when there was no record) and their two positions: 200 for
  positions 100 and 200 on a cache whose position was at most 200.
\<close>

theorem updateCacheOnCommit_monotone:
  "(isValid s \<and> activeTxnNumber s \<le> n \<and> lastWrittenSessionRecord s = Some r \<longrightarrow>
      lastWrittenSessionRecord (snd (updateCacheOnCommit n ts s)) =
        Some (r\<lparr>txnNum := max (txnNum r) n, lastWriteOpTimeTs := max (lastWriteOpTimeTs r) ts\<rparr>))
   \<and> (lastWrittenSessionRecord s = Some r \<longrightarrow>
        (\<exists>r'. lastWrittenSessionRecord (snd (updateCacheOnCommit n ts s)) = Some r'
              \<and> txnNum r \<le> txnNum r' \<and> lastWriteOpTimeTs r \<le> lastWriteOpTimeTs r'))
   \<and> (isValid s \<and> activeTxnNumber s \<le> n \<longrightarrow>
        map_option lastWriteOpTimeTs
          (lastWrittenSessionRecord
             (snd (updateCacheOnCommit n tb (snd (updateCacheOnCommit n ta s)))))
          = Some (max (max (case lastWrittenSessionRecord s of
                              None \<Rightarrow> 0 | Some r0 \<Rightarrow> lastWriteOpTimeTs r0) ta) tb)
        \<and> map_option lastWriteOpTimeTs
          (lastWrittenSessionRecord
             (snd (updateCacheOnCommit n ta (snd (updateCacheOnCommit n tb s)))))
          = Some (max (max (case lastWrittenSessionRecord s of
                              None \<Rightarrow> 0 | Some r0 \<Rightarrow> lastWriteOpTimeTs r0) ta) tb))"
proof (intro conjI impI)
  assume "isValid s \<and> activeTxnNumber s \<le> n \<and> lastWrittenSessionRecord s = Some r"
  then show "lastWrittenSessionRecord (snd (updateCacheOnCommit n ts s)) =
        Some (r\<lparr>txnNum := max (txnNum r) n, lastWriteOpTimeTs := max (lastWriteOpTimeTs r) ts\<rparr>)"
    by (simp add: updateCacheOnCommit_merged)
next
  assume r: "lastWrittenSessionRecord s = Some r"
  show "\<exists>r'. lastWrittenSessionRecord (snd (updateCacheOnCommit n ts s)) = Some r'
              \<and> txnNum r \<le> txnNum r' \<and> lastWriteOpTimeTs r \<le> lastWriteOpTimeTs r'"
  proof (cases "isValid s \<and> activeTxnNumber s \<le> n")
    case True
    then show ?thesis using r by (simp add: updateCacheOnCommit_merged)
  next
    case False
    then have "snd (updateCacheOnCommit n ts s) = s"
      by (intro updateCacheOnCommit_skipped) auto
    then show ?thesis using r by simp
  qed
next
  assume a: "isValid s \<and> activeTxnNumber s \<le> n"
  show "map_option lastWriteOpTimeTs
          (lastWrittenSessionRecord
             (snd (updateCacheOnCommit n tb (snd (updateCacheOnCommit n ta s)))))
          = Some (max (max (case lastWrittenSessionRecord s of
                              None \<Rightarrow> 0 | Some r0 \<Rightarrow> lastWriteOpTimeTs r0) ta) tb)"
    using a by (simp add: updateCacheOnCommit_merged split: option.splits)
next
  assume a: "isValid s \<and> activeTxnNumber s \<le> n"
  show "map_option lastWriteOpTimeTs
          (lastWrittenSessionRecord
             (snd (updateCacheOnCommit n ta (snd (updateCacheOnCommit n tb s)))))
          = Some (max (max (case lastWrittenSessionRecord s of
                              None \<Rightarrow> 0 | Some r0 \<Rightarrow> lastWriteOpTimeTs r0) ta) tb)"
    using a
    by (simp add: updateCacheOnCommit_merged max.commute max.left_commute
        split: option.splits)
qed

text \<open>
  Scenario D of the specification: on the cache at transaction 5 the callbacks for
  positions 100 and 200 leave position 200 in either order, from no record and from the
  record at position 100.
\<close>

theorem updateCacheOnCommit_monotone_witness:
  "map_option lastWriteOpTimeTs
     (lastWrittenSessionRecord
        (snd (updateCacheOnCommit 5 200 (snd (updateCacheOnCommit 5 100 session_at_5))))) = Some 200
   \<and> map_option lastWriteOpTimeTs
     (lastWrittenSessionRecord
        (snd (updateCacheOnCommit 5 100 (snd (updateCacheOnCommit 5 200 session_at_5))))) = Some 200
   \<and> lastWrittenSessionRecord (snd (updateCacheOnCommit 5 200 session_written_5))
       = Some \<lparr>sessionId = 1, txnNum = 5, lastWriteOpTimeTs = 200\<rparr>
   \<and> lastWrittenSessionRecord (snd (updateCacheOnCommit 5 50 session_written_5))
       = Some record_5_100"
  using
    updateCacheOnCommit_monotone
      [where s = session_at_5 and n = 5 and ta = 100 and tb = 200 and r = record_5_100 and ts = 0]
    updateCacheOnCommit_monotone
      [where s = session_written_5 and n = 5 and ts = 200 and r = record_5_100
         and ta = 100 and tb = 200]
    updateCacheOnCommit_monotone
      [where s = session_written_5 and n = 5 and ts = 50 and r = record_5_100
         and ta = 100 and tb = 200]
  by simp

text \<open>
  The claim as the specification words it, for every invocation of the callback, fails at
  the guard \<^verbatim>\<open>if (newTxnNumber < _activeTxnNumber) return;\<close>. The cache below is
  reached from a new session by a refresh that loads the record of transaction 5 at
  position 100, followed by \<open>beginTxn 6\<close> and \<open>beginTxn 7\<close>. The callback of a write of
  transaction 6 at position 150 then leaves the record as it is, although the maximum of
  the transaction numbers is 6 and the maximum of the positions is 150.
\<close>

theorem updateCacheOnCommit_monotone_counterexample:
  "runActions [RefreshRelock 0 (Some record_5_100), BeginTxn 6, BeginTxn 7] (newSession 1)
     = \<lparr>session_sessionId = 1, isValid = True, numInvalidations = 0,
        lastWrittenSessionRecord = Some record_5_100, activeTxnNumber = 7\<rparr>
   \<and> lastWrittenSessionRecord (snd (updateCacheOnCommit 6 150
        \<lparr>session_sessionId = 1, isValid = True, numInvalidations = 0,
         lastWrittenSessionRecord = Some record_5_100, activeTxnNumber = 7\<rparr>))
     = Some record_5_100
   \<and> txnNum record_5_100 \<noteq> max (txnNum record_5_100) 6
   \<and> lastWriteOpTimeTs record_5_100 \<noteq> max (lastWriteOpTimeTs record_5_100) 150"
  by (simp add: runActions_def newSession_def refresh_relock_def beginTxn_locked_def
      checkValid_def updateCacheOnCommit_def)

text \<open>
  C9. The commit callback is idempotent: run a second time with the same transaction
  number and write position, on the cache that the first run left, it returns the same
  outcome and the same cache, in every field.
\<close>

theorem updateCacheOnCommit_idempotent:
  "updateCacheOnCommit n ts (snd (updateCacheOnCommit n ts s)) = updateCacheOnCommit n ts s"
  by (auto simp add: updateCacheOnCommit_def beginTxn_locked_def checkValid_def Let_def
      split: option.splits)

theorem updateCacheOnCommit_idempotent_witness:
  "updateCacheOnCommit 7 150 session_written_5
     = (Inr (),
        \<lparr>session_sessionId = 1, isValid = True, numInvalidations = 0,
         lastWrittenSessionRecord = Some \<lparr>sessionId = 1, txnNum = 7, lastWriteOpTimeTs = 150\<rparr>,
         activeTxnNumber = 7\<rparr>)
   \<and> updateCacheOnCommit 7 150 (snd (updateCacheOnCommit 7 150 session_written_5))
     = (Inr (),
        \<lparr>session_sessionId = 1, isValid = True, numInvalidations = 0,
         lastWrittenSessionRecord = Some \<lparr>sessionId = 1, txnNum = 7, lastWriteOpTimeTs = 150\<rparr>,
         activeTxnNumber = 7\<rparr>)"
  using updateCacheOnCommit_idempotent [where n = 7 and ts = 150 and s = session_written_5]
  by (simp add: updateCacheOnCommit_def beginTxn_locked_def checkValid_def)

section \<open>Invariant I2\<close>

text \<open>
  C4. Invariant I2 (a record that is present has a transaction number at most the
  active one) holds of a new session and is preserved by every section of the source
  that writes to the cache: \<^verbatim>\<open>invalidate\<close>, \<^verbatim>\<open>beginTxn\<close>, the commit callback, the
  locked section of a refresh iteration, the whole refresh loop under any interference,
  any sequence of these sections, and the commit of a write scope with its callbacks. So
  it holds in every cache state reached from a new session.
\<close>

theorem I2_preserved:
  "I2 (newSession sid)
   \<and> (I2 s \<longrightarrow>
        I2 (invalidate s)
        \<and> I2 (snd (beginTxn opCtx n s))
        \<and> I2 (snd (updateCacheOnCommit n ts s))
        \<and> I2 (snd (refresh_relock epoch r s))
        \<and> (\<forall>res s'. refresh_loop ws s = Some (res, s') \<longrightarrow> I2 s')
        \<and> I2 (runActions acts s))
   \<and> (I2 (session w) \<longrightarrow> I2 (session (commitUnitOfWork w)))
   \<and> I2 (runActions acts (newSession sid))
   \<and> (\<forall>r'. lastWrittenSessionRecord (runActions acts (newSession sid)) = Some r' \<longrightarrow>
          txnNum r' \<le> activeTxnNumber (runActions acts (newSession sid)))"
proof -
  have b: "I2 s \<Longrightarrow> I2 (snd (beginTxn opCtx n s))"
    by (simp add: beginTxn_def I2_beginTxn_locked)
  have reach: "I2 (runActions acts (newSession sid))"
    by (simp add: I2_runActions I2_newSession)
  then have unfolded:
    "\<forall>r'. lastWrittenSessionRecord (runActions acts (newSession sid)) = Some r' \<longrightarrow>
          txnNum r' \<le> activeTxnNumber (runActions acts (newSession sid))"
    by (simp add: I2_def split: option.splits)
  show ?thesis
    using b reach unfolded
    by (auto simp add: I2_newSession I2_invalidate I2_updateCacheOnCommit I2_refresh_relock
        I2_runActions I2_commitUnitOfWork dest: I2_refresh_loop)
qed

text \<open>
  A run from a new session: a refresh loads the record of transaction 5, transaction 6 is
  admitted and its write at position 150 commits, transaction 9 is admitted. The record
  is then the one of transaction 6, under the active transaction 9.
\<close>

theorem I2_preserved_witness:
  "I2 session_written_5
   \<and> I2 (snd (beginTxn opCtx_idle 7 session_written_5))
   \<and> I2 (snd (updateCacheOnCommit 7 150 session_written_5))
   \<and> runActions [RefreshRelock 0 (Some record_5_100), BeginTxn 6, CommitCallback 6 150, BeginTxn 9]
        (newSession 1)
      = \<lparr>session_sessionId = 1, isValid = True, numInvalidations = 0,
         lastWrittenSessionRecord = Some \<lparr>sessionId = 1, txnNum = 6, lastWriteOpTimeTs = 150\<rparr>,
         activeTxnNumber = 9\<rparr>
   \<and> I2 (runActions [RefreshRelock 0 (Some record_5_100), BeginTxn 6, CommitCallback 6 150, BeginTxn 9]
        (newSession 1))"
  using I2_preserved
    [where s = session_written_5 and opCtx = opCtx_idle and n = 7 and ts = 150 and sid = 1
       and acts = "[RefreshRelock 0 (Some record_5_100), BeginTxn 6, CommitCallback 6 150, BeginTxn 9]"
       and epoch = 0 and r = None and ws = "[]"]
  by (simp add: I2_def runActions_def newSession_def refresh_relock_def beginTxn_locked_def
      checkValid_def updateCacheOnCommit_def)

section \<open>The epoch guard of the refresh\<close>

text \<open>
  C6. \<^verbatim>\<open>refreshFromStorageIfNeeded\<close>, called as its invariants require, installs a
  row only under its guard. On a valid cache it looks nothing up and returns the cache
  as it is. On an invalid cache, after a window in which the lookup found the table:
  when the cache is still invalid and the count of invalidations is the one taken before
  the lookup, the function returns with the row installed (the record, the active
  transaction number when there is a row, and the valid flag) on the cache as the
  window left it; when another thread has made the cache valid in the window, the row is
  dropped and the function returns that cache untouched; when the count has changed,
  the row is dropped and the function goes on with its next iteration from the cache as
  the window left it. In particular after one or more (fewer than \<open>2 ^ 32\<close>) calls of
  \<^verbatim>\<open>invalidate\<close> in the window the cache is still invalid, without a record, and the
  loop retries. The locked section itself installs exactly when the cache is invalid and
  the count is the snapshot, and otherwise leaves the cache as it is.
\<close>

theorem refresh_epoch_guard:
  "(fst (refresh_relock epoch r x) \<longleftrightarrow> \<not> isValid x \<and> numInvalidations x = epoch)
   \<and> (fst (refresh_relock epoch r x) \<longrightarrow>
        snd (refresh_relock epoch r x)
          = x\<lparr>isValid := True, lastWrittenSessionRecord := r,
              activeTxnNumber := (case r of None \<Rightarrow> activeTxnNumber x | Some y \<Rightarrow> txnNum y)\<rparr>)
   \<and> (\<not> fst (refresh_relock epoch r x) \<longrightarrow> snd (refresh_relock epoch r x) = x)
   \<and> (\<not> lockState_isLocked opCtx \<and> readConcern_isLocal opCtx \<and> isValid s \<longrightarrow>
        refreshFromStorageIfNeeded opCtx ws s = Some (Inr (), s))
   \<and> (\<not> lockState_isLocked opCtx \<and> readConcern_isLocal opCtx \<and> \<not> isValid s
        \<and> seenTable w = Some t \<longrightarrow>
        (\<not> isValid (runActions (interference w) s)
           \<and> numInvalidations (runActions (interference w) s) = numInvalidations s \<longrightarrow>
           refreshFromStorageIfNeeded opCtx (w # ws) s
             = Some (Inr (),
                     (runActions (interference w) s)
                       \<lparr>isValid := True,
                        lastWrittenSessionRecord := t (session_sessionId s),
                        activeTxnNumber :=
                          (case t (session_sessionId s) of
                             None \<Rightarrow> activeTxnNumber (runActions (interference w) s)
                           | Some y \<Rightarrow> txnNum y)\<rparr>))
        \<and> (isValid (runActions (interference w) s) \<longrightarrow>
             refreshFromStorageIfNeeded opCtx (w # ws) s
               = Some (Inr (), runActions (interference w) s))
        \<and> (numInvalidations (runActions (interference w) s) \<noteq> numInvalidations s \<longrightarrow>
             refreshFromStorageIfNeeded opCtx (w # ws) s
               = refreshFromStorageIfNeeded opCtx ws (runActions (interference w) s))
        \<and> (0 < k \<and> k < 2 ^ 32 \<and> interference w = replicate k Invalidate \<longrightarrow>
             refreshFromStorageIfNeeded opCtx (w # ws) s
               = refreshFromStorageIfNeeded opCtx ws (runActions (replicate k Invalidate) s)
             \<and> \<not> isValid (runActions (replicate k Invalidate) s)
             \<and> lastWrittenSessionRecord (runActions (replicate k Invalidate) s) = None))"
proof (intro conjI impI)
  show "fst (refresh_relock epoch r x) \<longleftrightarrow> \<not> isValid x \<and> numInvalidations x = epoch"
    by (rule refresh_relock_fst)
next
  assume "fst (refresh_relock epoch r x)"
  then show "snd (refresh_relock epoch r x)
          = x\<lparr>isValid := True, lastWrittenSessionRecord := r,
              activeTxnNumber := (case r of None \<Rightarrow> activeTxnNumber x | Some y \<Rightarrow> txnNum y)\<rparr>"
    by (rule refresh_relock_install)
next
  assume "\<not> fst (refresh_relock epoch r x)"
  then show "snd (refresh_relock epoch r x) = x"
    by (rule refresh_relock_discard)
next
  assume "\<not> lockState_isLocked opCtx \<and> readConcern_isLocal opCtx \<and> isValid s"
  then show "refreshFromStorageIfNeeded opCtx ws s = Some (Inr (), s)"
    by (simp add: refreshFromStorageIfNeeded_def refresh_loop_valid)
next
  assume pre: "\<not> lockState_isLocked opCtx \<and> readConcern_isLocal opCtx \<and> \<not> isValid s
        \<and> seenTable w = Some t"
  assume "\<not> isValid (runActions (interference w) s)
           \<and> numInvalidations (runActions (interference w) s) = numInvalidations s"
  then have "refresh_loop (w # ws) s
             = Some (Inr (),
                     (runActions (interference w) s)
                       \<lparr>isValid := True,
                        lastWrittenSessionRecord := t (session_sessionId s),
                        activeTxnNumber :=
                          (case t (session_sessionId s) of
                             None \<Rightarrow> activeTxnNumber (runActions (interference w) s)
                           | Some y \<Rightarrow> txnNum y)\<rparr>)"
    using pre by (intro refresh_loop_installs) simp_all
  then show "refreshFromStorageIfNeeded opCtx (w # ws) s
             = Some (Inr (),
                     (runActions (interference w) s)
                       \<lparr>isValid := True,
                        lastWrittenSessionRecord := t (session_sessionId s),
                        activeTxnNumber :=
                          (case t (session_sessionId s) of
                             None \<Rightarrow> activeTxnNumber (runActions (interference w) s)
                           | Some y \<Rightarrow> txnNum y)\<rparr>)"
    using pre by (simp add: refreshFromStorageIfNeeded_def del: refresh_loop.simps)
next
  assume pre: "\<not> lockState_isLocked opCtx \<and> readConcern_isLocal opCtx \<and> \<not> isValid s
        \<and> seenTable w = Some t"
  assume "isValid (runActions (interference w) s)"
  then have "refresh_loop (w # ws) s = Some (Inr (), runActions (interference w) s)"
    using pre by (intro refresh_loop_made_valid) simp_all
  then show "refreshFromStorageIfNeeded opCtx (w # ws) s
               = Some (Inr (), runActions (interference w) s)"
    using pre by (simp add: refreshFromStorageIfNeeded_def del: refresh_loop.simps)
next
  assume pre: "\<not> lockState_isLocked opCtx \<and> readConcern_isLocal opCtx \<and> \<not> isValid s
        \<and> seenTable w = Some t"
  assume "numInvalidations (runActions (interference w) s) \<noteq> numInvalidations s"
  then have "refresh_loop (w # ws) s = refresh_loop ws (runActions (interference w) s)"
    using pre by (intro refresh_loop_epoch_changed) simp_all
  then show "refreshFromStorageIfNeeded opCtx (w # ws) s
               = refreshFromStorageIfNeeded opCtx ws (runActions (interference w) s)"
    using pre by (simp add: refreshFromStorageIfNeeded_def del: refresh_loop.simps)
next
  assume pre: "\<not> lockState_isLocked opCtx \<and> readConcern_isLocal opCtx \<and> \<not> isValid s
        \<and> seenTable w = Some t"
  assume a: "0 < k \<and> k < 2 ^ 32 \<and> interference w = replicate k Invalidate"
  then have "numInvalidations (runActions (interference w) s) \<noteq> numInvalidations s"
    by (simp add: invalidations_change_epoch)
  then have "refresh_loop (w # ws) s = refresh_loop ws (runActions (interference w) s)"
    using pre by (intro refresh_loop_epoch_changed) simp_all
  then have "refresh_loop (w # ws) s = refresh_loop ws (runActions (replicate k Invalidate) s)"
    using a by (simp only:)
  then show "refreshFromStorageIfNeeded opCtx (w # ws) s
               = refreshFromStorageIfNeeded opCtx ws (runActions (replicate k Invalidate) s)"
    using pre by (simp add: refreshFromStorageIfNeeded_def del: refresh_loop.simps)
next
  assume "0 < k \<and> k < 2 ^ 32 \<and> interference w = replicate k Invalidate"
  then show "\<not> isValid (runActions (replicate k Invalidate) s)"
    by (simp add: invalidations_leave_invalid)
next
  assume "0 < k \<and> k < 2 ^ 32 \<and> interference w = replicate k Invalidate"
  then show "lastWrittenSessionRecord (runActions (replicate k Invalidate) s) = None"
    by (simp add: invalidations_leave_invalid)
qed

text \<open>
  Three refreshes of a new session whose first lookup sees the record of transaction 5.
  In a quiet window that row is installed. When another thread's refresh installs the
  record of transaction 6 in the window, leaving the count as it was, the row of
  transaction 5 is dropped and the cache keeps transaction 6. When another thread
  invalidates the cache in the window, the row is dropped as well; the second window is
  quiet, and the row it sees, of transaction 6, is the one installed, under the new
  count.
\<close>

theorem refresh_epoch_guard_witness:
  "refreshFromStorageIfNeeded opCtx_idle
     [\<lparr>seenTable = Some (Map.empty(1 \<mapsto> record_5_100)), interference = []\<rparr>]
     (newSession 1)
   = Some (Inr (),
           \<lparr>session_sessionId = 1, isValid = True, numInvalidations = 0,
            lastWrittenSessionRecord = Some record_5_100, activeTxnNumber = 5\<rparr>)
   \<and> refreshFromStorageIfNeeded opCtx_idle
     [\<lparr>seenTable = Some (Map.empty(1 \<mapsto> record_5_100)),
       interference = [RefreshRelock 0 (Some \<lparr>sessionId = 1, txnNum = 6, lastWriteOpTimeTs = 200\<rparr>)]\<rparr>]
     (newSession 1)
   = Some (Inr (),
           \<lparr>session_sessionId = 1, isValid = True, numInvalidations = 0,
            lastWrittenSessionRecord = Some \<lparr>sessionId = 1, txnNum = 6, lastWriteOpTimeTs = 200\<rparr>,
            activeTxnNumber = 6\<rparr>)
   \<and> refreshFromStorageIfNeeded opCtx_idle
     [\<lparr>seenTable = Some (Map.empty(1 \<mapsto> record_5_100)), interference = [Invalidate]\<rparr>,
      \<lparr>seenTable = Some (Map.empty(1 \<mapsto> \<lparr>sessionId = 1, txnNum = 6, lastWriteOpTimeTs = 200\<rparr>)),
       interference = []\<rparr>]
     (newSession 1)
   = Some (Inr (),
           \<lparr>session_sessionId = 1, isValid = True, numInvalidations = 1,
            lastWrittenSessionRecord = Some \<lparr>sessionId = 1, txnNum = 6, lastWriteOpTimeTs = 200\<rparr>,
            activeTxnNumber = 6\<rparr>)"
  using
    refresh_epoch_guard
      [where opCtx = opCtx_idle and s = "newSession 1" and k = 1 and epoch = 0
         and x = "newSession 1" and r = "Some record_5_100"
         and t = "Map.empty(1 \<mapsto> record_5_100)" and ws = "[]"
         and w = "\<lparr>seenTable = Some (Map.empty(1 \<mapsto> record_5_100)), interference = []\<rparr>"]
    refresh_epoch_guard
      [where opCtx = opCtx_idle and s = "newSession 1" and k = 1 and epoch = 0
         and x = "newSession 1" and r = "Some record_5_100"
         and t = "Map.empty(1 \<mapsto> record_5_100)" and ws = "[]"
         and w = "\<lparr>seenTable = Some (Map.empty(1 \<mapsto> record_5_100)),
                    interference = [RefreshRelock 0
                      (Some \<lparr>sessionId = 1, txnNum = 6, lastWriteOpTimeTs = 200\<rparr>)]\<rparr>"]
    refresh_epoch_guard
      [where opCtx = opCtx_idle and s = "newSession 1" and k = 1 and epoch = 0
         and x = "newSession 1" and r = "Some record_5_100"
         and t = "Map.empty(1 \<mapsto> record_5_100)"
         and w = "\<lparr>seenTable = Some (Map.empty(1 \<mapsto> record_5_100)), interference = [Invalidate]\<rparr>"
         and ws = "[\<lparr>seenTable = Some (Map.empty(1 \<mapsto> \<lparr>sessionId = 1, txnNum = 6,
                       lastWriteOpTimeTs = 200\<rparr>)), interference = []\<rparr>]"]
  by (simp add: refreshFromStorageIfNeeded_def newSession_def runActions_def invalidate_def
      refresh_relock_def findOne_def)

section \<open>Queries\<close>

text \<open>
  C7. \<^verbatim>\<open>getLastWriteOpTimeTs(n)\<close> fails with ConflictingOperationInProgress when the
  cache is invalid or \<open>n\<close> is not the active transaction number. Otherwise it returns the
  null timestamp when there is no record or the record is of another transaction, and the
  record's write timestamp when the record is of transaction \<open>n\<close>.
\<close>

theorem getLastWriteOpTimeTs_result:
  "(\<not> isValid s \<or> n \<noteq> activeTxnNumber s \<longrightarrow>
      getLastWriteOpTimeTs n s = Inl ConflictingOperationInProgress)
   \<and> (isValid s \<and> n = activeTxnNumber s \<longrightarrow>
        (lastWrittenSessionRecord s = None \<longrightarrow> getLastWriteOpTimeTs n s = Inr 0)
        \<and> (\<forall>r. lastWrittenSessionRecord s = Some r \<longrightarrow>
              (txnNum r \<noteq> n \<longrightarrow> getLastWriteOpTimeTs n s = Inr 0)
              \<and> (txnNum r = n \<longrightarrow> getLastWriteOpTimeTs n s = Inr (lastWriteOpTimeTs r))))"
  by (simp add: getLastWriteOpTimeTs_def checkValid_def checkIsActiveTransaction_def)

theorem getLastWriteOpTimeTs_result_witness:
  "getLastWriteOpTimeTs 5 session_written_5 = Inr 100
   \<and> getLastWriteOpTimeTs 5 session_at_5 = Inr 0
   \<and> getLastWriteOpTimeTs 7 (session_written_5\<lparr>activeTxnNumber := 7\<rparr>) = Inr 0
   \<and> getLastWriteOpTimeTs 4 session_written_5 = Inl ConflictingOperationInProgress
   \<and> getLastWriteOpTimeTs 5 (invalidate session_written_5) = Inl ConflictingOperationInProgress"
  using
    getLastWriteOpTimeTs_result [where n = 5 and s = session_written_5]
    getLastWriteOpTimeTs_result [where n = 5 and s = session_at_5]
    getLastWriteOpTimeTs_result [where n = 7 and s = "session_written_5\<lparr>activeTxnNumber := 7\<rparr>"]
    getLastWriteOpTimeTs_result [where n = 4 and s = session_written_5]
    getLastWriteOpTimeTs_result [where n = 5 and s = "invalidate session_written_5"]
  by (simp add: invalidate_def)

text \<open>
  C10. \<^verbatim>\<open>checkStatementExecuted\<close>, once past its checks and on a record of the asked
  transaction, walks the entries that the iterator yields from the cached write position.
  When every entry of that chain has a statement id, the result is the first entry with
  the asked statement id, or "not found" when there is none, and never the failed
  invariant. The result "not found" is only given when every entry of the chain has a
  statement id (and none is the asked one). When the walk comes to an entry without a
  statement id, that is, no entry before it lacks an id or has the asked one, the result
  is the failed invariant. In full: the outcome is decided by the first entry that has no
  statement id or has the asked one.
\<close>

theorem checkStatementExecuted_statement_ids:
  assumes "isValid s"
    and "n = activeTxnNumber s"
    and "lastWrittenSessionRecord s = Some r"
    and "txnNum r = n"
  shows "((\<forall>e \<in> set (history (lastWriteOpTimeTs r)). statementId e \<noteq> None) \<longrightarrow>
            checkStatementExecuted history n stmtId s
              = Inr (find (\<lambda>e. statementId e = Some stmtId) (history (lastWriteOpTimeTs r)))
            \<and> checkStatementExecuted history n stmtId s \<noteq> Inl InvariantFailure)
       \<and> (checkStatementExecuted history n stmtId s = Inr None \<longrightarrow>
            (\<forall>e \<in> set (history (lastWriteOpTimeTs r)).
               statementId e \<noteq> None \<and> statementId e \<noteq> Some stmtId))
       \<and> (\<forall>pre x post.
            history (lastWriteOpTimeTs r) = pre @ x # post \<and> statementId x = None
            \<and> (\<forall>e \<in> set pre. statementId e \<noteq> None \<and> statementId e \<noteq> Some stmtId) \<longrightarrow>
            checkStatementExecuted history n stmtId s = Inl InvariantFailure)
       \<and> checkStatementExecuted history n stmtId s
           = (case find (\<lambda>e. statementId e = None \<or> statementId e = Some stmtId)
                     (history (lastWriteOpTimeTs r)) of
                None \<Rightarrow> Inr None
              | Some e \<Rightarrow> if statementId e = None then Inl InvariantFailure else Inr (Some e))"
proof -
  have walk: "checkStatementExecuted history n stmtId s
                = checkStatementExecuted_walk stmtId (history (lastWriteOpTimeTs r))"
    using assms
    by (simp add: checkStatementExecuted_def checkValid_def checkIsActiveTransaction_def)
  show ?thesis
    unfolding walk
  proof (intro conjI impI allI)
    assume "\<forall>e \<in> set (history (lastWriteOpTimeTs r)). statementId e \<noteq> None"
    then show "checkStatementExecuted_walk stmtId (history (lastWriteOpTimeTs r))
                 = Inr (find (\<lambda>e. statementId e = Some stmtId) (history (lastWriteOpTimeTs r)))"
      by (rule walk_all_ids)
  next
    assume "\<forall>e \<in> set (history (lastWriteOpTimeTs r)). statementId e \<noteq> None"
    then show "checkStatementExecuted_walk stmtId (history (lastWriteOpTimeTs r))
                 \<noteq> Inl InvariantFailure"
      by (simp add: walk_all_ids)
  next
    assume "checkStatementExecuted_walk stmtId (history (lastWriteOpTimeTs r)) = Inr None"
    then show "\<forall>e \<in> set (history (lastWriteOpTimeTs r)).
                 statementId e \<noteq> None \<and> statementId e \<noteq> Some stmtId"
      by (rule walk_not_found)
  next
    fix pre x post
    assume "history (lastWriteOpTimeTs r) = pre @ x # post \<and> statementId x = None
            \<and> (\<forall>e \<in> set pre. statementId e \<noteq> None \<and> statementId e \<noteq> Some stmtId)"
    then show "checkStatementExecuted_walk stmtId (history (lastWriteOpTimeTs r))
                 = Inl InvariantFailure"
      by (simp add: walk_visits_missing_id)
  next
    show "checkStatementExecuted_walk stmtId (history (lastWriteOpTimeTs r))
           = (case find (\<lambda>e. statementId e = None \<or> statementId e = Some stmtId)
                     (history (lastWriteOpTimeTs r)) of
                None \<Rightarrow> Inr None
              | Some e \<Rightarrow> if statementId e = None then Inl InvariantFailure else Inr (Some e))"
      by (rule walk_first_decisive)
  qed
qed

text \<open>
  Scenario C of the specification: from position 100 the log gives the entries of
  statements 2, 1 and 0. Statement 1 is found, statement 7 is not. On a chain whose
  second entry has no statement id, the search for statement 0 fails the invariant, and
  the search for statement 2 returns at the first entry.
\<close>

theorem checkStatementExecuted_statement_ids_witness:
  "checkStatementExecuted
      (\<lambda>t. if t = 100 then [\<lparr>entryTs = 100, statementId = Some 2\<rparr>,
                             \<lparr>entryTs = 90, statementId = Some 1\<rparr>,
                             \<lparr>entryTs = 80, statementId = Some 0\<rparr>] else [])
      5 1 session_written_5
    = Inr (Some \<lparr>entryTs = 90, statementId = Some 1\<rparr>)
   \<and> checkStatementExecuted
      (\<lambda>t. if t = 100 then [\<lparr>entryTs = 100, statementId = Some 2\<rparr>,
                             \<lparr>entryTs = 90, statementId = Some 1\<rparr>,
                             \<lparr>entryTs = 80, statementId = Some 0\<rparr>] else [])
      5 7 session_written_5
    = Inr None
   \<and> checkStatementExecuted
      (\<lambda>t. if t = 100 then [\<lparr>entryTs = 100, statementId = Some 2\<rparr>,
                             \<lparr>entryTs = 90, statementId = None\<rparr>,
                             \<lparr>entryTs = 80, statementId = Some 0\<rparr>] else [])
      5 0 session_written_5
    = Inl InvariantFailure
   \<and> checkStatementExecuted
      (\<lambda>t. if t = 100 then [\<lparr>entryTs = 100, statementId = Some 2\<rparr>,
                             \<lparr>entryTs = 90, statementId = None\<rparr>,
                             \<lparr>entryTs = 80, statementId = Some 0\<rparr>] else [])
      5 2 session_written_5
    = Inr (Some \<lparr>entryTs = 100, statementId = Some 2\<rparr>)"
proof -
  let ?full = "\<lambda>t. if t = 100 then [\<lparr>entryTs = 100, statementId = Some 2\<rparr>,
                             \<lparr>entryTs = 90, statementId = Some 1\<rparr>,
                             \<lparr>entryTs = 80, statementId = Some 0\<rparr>] else []"
  let ?gap = "\<lambda>t. if t = 100 then [\<lparr>entryTs = 100, statementId = Some 2\<rparr>,
                             \<lparr>entryTs = 90, statementId = None\<rparr>,
                             \<lparr>entryTs = 80, statementId = Some 0\<rparr>] else []"
  have pre: "isValid session_written_5" "5 = activeTxnNumber session_written_5"
    "lastWrittenSessionRecord session_written_5 = Some record_5_100" "txnNum record_5_100 = 5"
    by simp_all
  show ?thesis
    using
      checkStatementExecuted_statement_ids [where history = ?full and stmtId = 1, OF pre,
        THEN conjunct2, THEN conjunct2, THEN conjunct2]
      checkStatementExecuted_statement_ids [where history = ?full and stmtId = 7, OF pre,
        THEN conjunct2, THEN conjunct2, THEN conjunct2]
      checkStatementExecuted_statement_ids [where history = ?gap and stmtId = 0, OF pre,
        THEN conjunct2, THEN conjunct2, THEN conjunct2]
      checkStatementExecuted_statement_ids [where history = ?gap and stmtId = 2, OF pre,
        THEN conjunct2, THEN conjunct2, THEN conjunct2]
      checkStatementExecuted_statement_ids [where history = ?full and stmtId = 1, OF pre,
        THEN conjunct1]
      checkStatementExecuted_statement_ids [where history = ?gap and stmtId = 0, OF pre,
        THEN conjunct2, THEN conjunct2, THEN conjunct1, rule_format,
        where pre = "[\<lparr>entryTs = 100, statementId = Some 2\<rparr>]"
          and x = "\<lparr>entryTs = 90, statementId = None\<rparr>"
          and post = "[\<lparr>entryTs = 80, statementId = Some 0\<rparr>]"]
    by simp
qed

section \<open>A table that does not exist\<close>



end
